theory Spec2Isabelle
  imports Main "HOL-Library.Signed_Division" "HOL-Library.Monad_Syntax"
begin

section \<open>C++ \<open>int\<close> arithmetic\<close>

text \<open>
  The fields \<open>pitches\<close> and \<open>duration\<close> of \<open>struct Chord\<close> are C++ \<open>int\<close>s, taken to
  be 32 bits wide. They are modelled as mathematical integers, and every arithmetic
  operation of the source checks that its result is representable. Signed overflow is
  undefined behaviour in C++ (it does not wrap), so an operation whose result is not
  representable yields \<open>None\<close>: the program has no defined result there.
\<close>

definition INT_MIN :: int where
  "INT_MIN = - 2147483648"

definition INT_MAX :: int where
  "INT_MAX = 2147483647"

definition representable :: "int \<Rightarrow> bool" where
  "representable v \<longleftrightarrow> INT_MIN \<le> v \<and> v \<le> INT_MAX"

definition checked :: "int \<Rightarrow> int option" where
  "checked v = (if representable v then Some v else None)"

text \<open>\<open>a + b\<close>, \<open>a - b\<close> and \<open>a * b\<close> on \<open>int\<close>.\<close>

definition int_add :: "int \<Rightarrow> int \<Rightarrow> int option" where
  "int_add a b = checked (a + b)"

definition int_sub :: "int \<Rightarrow> int \<Rightarrow> int option" where
  "int_sub a b = checked (a - b)"

definition int_mul :: "int \<Rightarrow> int \<Rightarrow> int option" where
  "int_mul a b = checked (a * b)"

text \<open>
  \<open>a / b\<close> on \<open>int\<close> truncates toward zero (\<open>sdiv\<close>), where the \<open>div\<close> of HOL rounds
  toward minus infinity. Division by zero is undefined.
\<close>

definition int_div :: "int \<Rightarrow> int \<Rightarrow> int option" where
  "int_div a b = (if b = 0 then None else checked (a sdiv b))"

text \<open>
  \<open>d *= 1.5\<close> on an \<open>int d\<close>: \<open>d\<close> is converted to \<open>double\<close>, multiplied by \<open>1.5\<close>, and
  the product is converted back to \<open>int\<close>, which discards the fractional part
  (truncation toward zero) and is undefined when the truncated value is not
  representable. For a 32-bit \<open>d\<close> the product \<open>3 * d / 2\<close> has at most 34 significant
  bits, so the \<open>double\<close> arithmetic is exact and the result is the rational \<open>3 * d / 2\<close>
  truncated toward zero.
\<close>

definition int_mul_1_5 :: "int \<Rightarrow> int option" where
  "int_mul_1_5 d = checked ((3 * d) sdiv 2)"

section \<open>The chord\<close>

text \<open>The data members of \<open>struct Chord\<close>, in declaration order.\<close>

record Chord =
  pitches :: "int list"
  duration :: int
  triplet :: bool
  dotted :: bool
  double_dotted :: bool
  staccato :: bool
  tenuto :: bool
  accent :: bool
  fermata :: bool
  tied :: bool
  slurred :: bool

text \<open>
  The header \<open>constants.h\<close> is not part of the sources at hand. The named constants
  that \<open>chord.h\<close> reads from it are parameters of the model.
\<close>

record constants =
  c_major_chord :: "int list"
  quarter_note :: int
  sixty_fourth_note :: int
  dotted_sixty_fourth_note :: int
  one_twenty_eighth_note :: int

text \<open>
  A table whose tick is the one-hundred-twenty-eighth note, used for concrete
  evaluations only; no general theorem depends on it.
\<close>

definition tick_table :: constants where
  "tick_table = \<lparr>c_major_chord = [60, 64, 67], quarter_note = 32,
     sixty_fourth_note = 2, dotted_sixty_fourth_note = 3, one_twenty_eighth_note = 1\<rparr>"

subsection \<open>Constructors\<close>

text \<open>\<open>Chord()\<close>: every flag is initialised from the \<open>int\<close> literal \<open>0\<close>.\<close>

definition Chord_default :: "constants \<Rightarrow> Chord" where
  "Chord_default K = \<lparr>pitches = c_major_chord K, duration = quarter_note K,
     triplet = False, dotted = False, double_dotted = False, staccato = False,
     tenuto = False, accent = False, fermata = False, tied = False, slurred = False\<rparr>"

text \<open>
  \<open>Chord(pitches, duration, triplet, ..., slurred)\<close>: the flag parameters are \<open>int\<close>s
  and the members they initialise are \<open>bool\<close>s, so each flag is stored as
  \<open>parameter \<noteq> 0\<close>. The body is empty.
\<close>

definition Chord_fields ::
  "int list \<Rightarrow> int \<Rightarrow> int \<Rightarrow> int \<Rightarrow> int \<Rightarrow> int \<Rightarrow> int \<Rightarrow> int \<Rightarrow> int \<Rightarrow> int \<Rightarrow> int \<Rightarrow> Chord" where
  "Chord_fields ps d tr dt dd st te ac fe ti sl =
     \<lparr>pitches = ps, duration = d, triplet = (tr \<noteq> 0), dotted = (dt \<noteq> 0),
      double_dotted = (dd \<noteq> 0), staccato = (st \<noteq> 0), tenuto = (te \<noteq> 0),
      accent = (ac \<noteq> 0), fermata = (fe \<noteq> 0), tied = (ti \<noteq> 0), slurred = (sl \<noteq> 0)\<rparr>"

subsection \<open>Duration modifiers\<close>

text \<open>
  Every mutating member function returns \<open>bool\<close> and works on \<open>*this\<close>: the model
  takes the chord and returns the returned flag with the chord after the call.
\<close>

definition dot :: "constants \<Rightarrow> Chord \<Rightarrow> (bool \<times> Chord) option" where
  "dot K c =
     (if \<not> dotted c then
        (if duration c = one_twenty_eighth_note K then Some (False, c)
         else do {
           d \<leftarrow> int_mul_1_5 (duration c);
           Some (True, c\<lparr>dotted := True, duration := d\<rparr>)
         })
      else if dotted c \<and> \<not> double_dotted c then
        (if duration c = dotted_sixty_fourth_note K then Some (False, c)
         else do {
           q \<leftarrow> int_div (duration c) 6;
           d \<leftarrow> int_mul q 7;
           Some (True, c\<lparr>double_dotted := True, duration := d\<rparr>)
         })
      else Some (False, c))"

definition double_dot :: "constants \<Rightarrow> Chord \<Rightarrow> (bool \<times> Chord) option" where
  "double_dot K c =
     (if dotted c then Some (False, c)
      else if duration c = one_twenty_eighth_note K \<or> duration c = sixty_fourth_note K
        then Some (False, c)
      else do {
        q \<leftarrow> int_div (duration c) 4;
        d \<leftarrow> int_mul q 7;
        Some (True, c\<lparr>dotted := True, double_dotted := True, duration := d\<rparr>)
      })"

definition put_in_triplet :: "Chord \<Rightarrow> (bool \<times> Chord) option" where
  "put_in_triplet c =
     (if triplet c then Some (False, c)
      else do {
        q \<leftarrow> int_div (duration c) 3;
        d \<leftarrow> int_mul q 2;
        Some (True, c\<lparr>triplet := True, duration := d\<rparr>)
      })"

subsection \<open>Transposition and inversion\<close>

text \<open>
  The loop \<open>for (int i = 0; i < pitches.size(); i++) pitches[i] += 12;\<close> with the
  vector and the index as its state. The index is a natural number: it runs from 0
  to the size of the vector, which is taken to be at most \<open>INT_MAX\<close>.
\<close>

function add_octave_loop :: "int list \<Rightarrow> nat \<Rightarrow> int list option" where
  "add_octave_loop ps i =
     (if i < length ps then
        (case int_add (ps ! i) 12 of
           None \<Rightarrow> None
         | Some v \<Rightarrow> add_octave_loop (ps[i := v]) (Suc i))
      else Some ps)"
  by pat_completeness auto
termination
  by (relation "measure (\<lambda>(ps, i). length ps - i)") auto

function drop_octave_loop :: "int list \<Rightarrow> nat \<Rightarrow> int list option" where
  "drop_octave_loop ps i =
     (if i < length ps then
        (case int_sub (ps ! i) 12 of
           None \<Rightarrow> None
         | Some v \<Rightarrow> drop_octave_loop (ps[i := v]) (Suc i))
      else Some ps)"
  by pat_completeness auto
termination
  by (relation "measure (\<lambda>(ps, i). length ps - i)") auto

text \<open>
  The guards read \<open>pitches[pitches.size()-1]\<close> and \<open>pitches[0]\<close> only after
  \<open>pitches.size() == 0\<close> has failed (\<open>||\<close> evaluates its right operand only then).
\<close>

definition add_octave :: "Chord \<Rightarrow> (bool \<times> Chord) option" where
  "add_octave c =
     (if length (pitches c) = 0 then Some (False, c)
      else do {
        top \<leftarrow> int_add (pitches c ! (length (pitches c) - 1)) 12;
        if top > 126 then Some (False, c)
        else do {
          ps \<leftarrow> add_octave_loop (pitches c) 0;
          Some (True, c\<lparr>pitches := ps\<rparr>)
        }
      })"

definition drop_octave :: "Chord \<Rightarrow> (bool \<times> Chord) option" where
  "drop_octave c =
     (if length (pitches c) = 0 then Some (False, c)
      else do {
        bottom \<leftarrow> int_sub (pitches c ! 0) 12;
        if bottom < 0 then Some (False, c)
        else do {
          ps \<leftarrow> drop_octave_loop (pitches c) 0;
          Some (True, c\<lparr>pitches := ps\<rparr>)
        }
      })"

text \<open>
  \<open>invert\<close> appends first (\<open>push_back(pitches[0] + 12)\<close>) and erases the first element
  afterwards (\<open>erase(pitches.begin())\<close>). The sum is evaluated twice in the source, in
  the guard and in the argument of \<open>push_back\<close>.
\<close>

definition invert :: "Chord \<Rightarrow> (bool \<times> Chord) option" where
  "invert c =
     (if length (pitches c) < 2 then Some (False, c)
      else do {
        up \<leftarrow> int_add (pitches c ! 0) 12;
        if up > 126 then Some (False, c)
        else do {
          v \<leftarrow> int_add (pitches c ! 0) 12;
          Some (True, c\<lparr>pitches := tl (pitches c @ [v])\<rparr>)
        }
      })"

subsection \<open>Structural equality\<close>

text \<open>
  The loop of \<open>equals\<close>: \<open>False\<close> when it leaves through \<open>return false\<close>, \<open>True\<close> when it
  runs to its end. It is entered only when both vectors have the same size.
\<close>

function equals_loop :: "int list \<Rightarrow> int list \<Rightarrow> nat \<Rightarrow> bool" where
  "equals_loop ps qs i =
     (if i < length ps then
        (if ps ! i \<noteq> qs ! i then False else equals_loop ps qs (Suc i))
      else True)"
  by pat_completeness auto
termination
  by (relation "measure (\<lambda>(ps, qs, i). length ps - i)") auto

text \<open>
  \<open>equals\<close> assigns to no member of either chord, so it is a function of the two
  chords to the returned \<open>bool\<close>.
\<close>

definition equals :: "Chord \<Rightarrow> Chord \<Rightarrow> bool" where
  "equals this chord =
     (if length (pitches this) \<noteq> length (pitches chord) then False
      else if \<not> equals_loop (pitches this) (pitches chord) 0 then False
      else if duration this \<noteq> duration chord then False
      else if triplet this \<noteq> triplet chord then False
      else if dotted this \<noteq> dotted chord then False
      else if double_dotted this \<noteq> double_dotted chord then False
      else if staccato this \<noteq> staccato chord then False
      else if tenuto this \<noteq> tenuto chord then False
      else if accent this \<noteq> accent chord then False
      else if fermata this \<noteq> fermata chord then False
      else if tied this \<noteq> tied chord then False
      else if slurred this \<noteq> slurred chord then False
      else True)"

subsection \<open>Predicates of the specification\<close>

text \<open>The pitch domain of the specification, \<open>[0, 126]\<close>.\<close>

definition pitch_in_range :: "int \<Rightarrow> bool" where
  "pitch_in_range p \<longleftrightarrow> 0 \<le> p \<and> p \<le> 126"

definition pitches_in_range :: "Chord \<Rightarrow> bool" where
  "pitches_in_range c \<longleftrightarrow> list_all pitch_in_range (pitches c)"

section \<open>Arithmetic of truncating division\<close>

declare add_octave_loop.simps [simp del]
declare drop_octave_loop.simps [simp del]
declare equals_loop.simps [simp del]

lemmas eval_defs = Chord_fields_def tick_table_def int_mul_1_5_def int_add_def int_sub_def
  int_div_def int_mul_def checked_def representable_def INT_MIN_def INT_MAX_def
  signed_divide_int_def pitches_in_range_def pitch_in_range_def

lemma sdiv_nonneg: "0 \<le> a \<Longrightarrow> 0 < b \<Longrightarrow> (a::int) sdiv b = a div b"
  by (cases "a = 0") (simp_all add: signed_divide_int_def)

lemma sdiv_minus: "(- a) sdiv b = - ((a::int) sdiv b)"
  by (simp add: signed_divide_int_def)

lemma sdiv_neg: "a < 0 \<Longrightarrow> 0 < b \<Longrightarrow> (a::int) sdiv b = - ((- a) div b)"
proof -
  assume "a < 0" "0 < b"
  then have "0 \<le> - a" by simp
  then have "(- a) sdiv b = (- a) div b" using \<open>0 < b\<close> by (rule sdiv_nonneg)
  then show ?thesis by (simp add: sdiv_minus)
qed

lemma sdiv_bounds_nonneg:
  assumes "0 \<le> a" "0 < b"
  shows "0 \<le> (a::int) sdiv b" "b * (a sdiv b) \<le> a" "a < b * (a sdiv b) + b"
proof -
  have e: "a sdiv b = a div b" using assms by (rule sdiv_nonneg)
  show "0 \<le> a sdiv b" using assms by (simp add: e pos_imp_zdiv_nonneg_iff)
  have "a = b * (a div b) + a mod b" by simp
  moreover have "0 \<le> a mod b" "a mod b < b" using assms by simp_all
  ultimately show "b * (a sdiv b) \<le> a" "a < b * (a sdiv b) + b"
    unfolding e by linarith+
qed

lemma sdiv_bounds_neg:
  assumes "a \<le> 0" "0 < b"
  shows "(a::int) sdiv b \<le> 0" "a \<le> b * (a sdiv b)" "b * (a sdiv b) - b < a"
proof -
  have n: "0 \<le> - a" using assms by simp
  have e: "a sdiv b = - ((- a) sdiv b)" by (simp add: sdiv_minus)
  note m = sdiv_bounds_nonneg [OF n assms(2)]
  show "a sdiv b \<le> 0" using m(1) e by linarith
  show "a \<le> b * (a sdiv b)" using m(2) unfolding e by simp
  show "b * (a sdiv b) - b < a" using m(3) unfolding e by simp
qed

text \<open>Truncating division is exact precisely on multiples of the divisor.\<close>

lemma sdiv_exact_iff:
  assumes "0 < b"
  shows "b * (a sdiv b) = a \<longleftrightarrow> b dvd (a::int)"
proof
  assume "b * (a sdiv b) = a"
  then show "b dvd a" by (metis dvd_triv_left)
next
  assume "b dvd a"
  then obtain k where k: "a = b * k" ..
  show "b * (a sdiv b) = a"
  proof (cases "0 \<le> a")
    case True
    then show ?thesis using assms k by (simp add: sdiv_nonneg)
  next
    case False
    then have "a < 0" by simp
    then show ?thesis using assms k by (simp add: sdiv_neg)
  qed
qed

text \<open>
  The value of \<open>d *= 1.5\<close> against the floor of \<open>3 * d / 2\<close>: they differ by one for
  negative odd \<open>d\<close>.
\<close>

lemma mul_1_5_cases:
  "(3 * d) sdiv 2 = (if 0 \<le> d \<or> even d then (3 * d) div 2 else (3 * d) div 2 + 1)"
  for d :: int
proof (cases "0 \<le> d")
  case True
  then show ?thesis by (simp add: sdiv_nonneg)
next
  case False
  then have "3 * d < 0" by simp
  then have "(3 * d) sdiv 2 = - ((- (3 * d)) div 2)" by (simp add: sdiv_neg)
  also have "\<dots> = (if even d then (3 * d) div 2 else (3 * d) div 2 + 1)" by presburger
  finally show ?thesis using False by simp
qed

text \<open>The quotient taken by the second dot is the quotient taken by \<open>double_dot\<close>.\<close>

lemma dot_twice_quotient_nonneg: "0 \<le> d \<Longrightarrow> ((3 * d) sdiv 2) sdiv 6 = (d::int) sdiv 4"
  by (simp add: sdiv_nonneg pos_imp_zdiv_nonneg_iff)

lemma dot_twice_quotient: "((3 * d) sdiv 2) sdiv 6 = (d::int) sdiv 4"
proof (cases "0 \<le> d")
  case True
  then show ?thesis by (rule dot_twice_quotient_nonneg)
next
  case False
  then have "0 \<le> - d" by simp
  then have "((3 * (- d)) sdiv 2) sdiv 6 = (- d) sdiv 4"
    by (rule dot_twice_quotient_nonneg)
  then show ?thesis
    by (simp add: sdiv_minus)
qed

subsection \<open>Representable results\<close>

lemma representable_triplet:
  assumes "representable d"
  shows "representable (d sdiv 3)" "representable (d sdiv 3 * 2)"
proof -
  have "representable (d sdiv 3) \<and> representable (d sdiv 3 * 2)"
  proof (cases "0 \<le> d")
    case True
    note q = sdiv_bounds_nonneg [OF True, of 3, simplified]
    show ?thesis using assms q
      by (simp add: representable_def INT_MIN_def INT_MAX_def)
  next
    case False
    then have n: "d \<le> 0" by simp
    note q = sdiv_bounds_neg [OF n, of 3, simplified]
    show ?thesis using assms q
      by (simp add: representable_def INT_MIN_def INT_MAX_def)
  qed
  then show "representable (d sdiv 3)" "representable (d sdiv 3 * 2)" by simp_all
qed

text \<open>Where \<open>double_dot\<close> does not overflow, the first dot does not either.\<close>

lemma representable_dot_of_double_dot:
  assumes "representable (7 * (d sdiv 4))"
  shows "representable ((3 * d) sdiv 2)"
proof (cases "0 \<le> d")
  case True
  note q = sdiv_bounds_nonneg [OF True, of 4, simplified]
  have t: "0 \<le> 3 * d" using True by simp
  note h = sdiv_bounds_nonneg [OF t, of 2, simplified]
  show ?thesis using assms q h
    by (simp add: representable_def INT_MIN_def INT_MAX_def)
next
  case False
  then have n: "d \<le> 0" by simp
  note q = sdiv_bounds_neg [OF n, of 4, simplified]
  have t: "3 * d \<le> 0" using n by simp
  note h = sdiv_bounds_neg [OF t, of 2, simplified]
  show ?thesis using assms q h
    by (simp add: representable_def INT_MIN_def INT_MAX_def)
qed

text \<open>
  \<open>d /= b; d *= k\<close> with a positive literal \<open>k\<close>: when the product is representable,
  so is the quotient, and the two statements yield the product.
\<close>

lemma div_then_mul:
  assumes "representable (a sdiv b * k)" "1 \<le> k" "b \<noteq> 0"
  shows "int_div a b \<bind> (\<lambda>q. int_mul q k \<bind> f) = f (a sdiv b * k)"
proof -
  have "representable (a sdiv b)"
  proof (cases "0 \<le> a sdiv b")
    case True
    then have "a sdiv b \<le> a sdiv b * k"
      using assms(2) by (simp add: mult_le_cancel_left1)
    then show ?thesis using True assms(1)
      unfolding representable_def INT_MIN_def INT_MAX_def by linarith
  next
    case False
    then have "a sdiv b * k \<le> a sdiv b"
      using assms(2) by (simp add: mult_le_cancel_left2)
    then show ?thesis using False assms(1)
      unfolding representable_def INT_MIN_def INT_MAX_def by linarith
  qed
  then show ?thesis using assms by (simp add: int_div_def int_mul_def checked_def)
qed

section \<open>The loops\<close>

text \<open>
  From index \<open>i\<close> on, the loop of \<open>add_octave\<close> adds 12 to every element, and it has a
  defined result exactly when none of these sums overflows.
\<close>

lemma add_octave_loop_eq:
  "add_octave_loop ps i =
     (if \<forall>p \<in> set (drop i ps). representable (p + 12)
      then Some (take i ps @ map (\<lambda>p. p + 12) (drop i ps)) else None)"
proof (induction ps i rule: add_octave_loop.induct)
  case (1 ps i)
  show ?case
  proof (cases "i < length ps")
    case False
    then show ?thesis by (simp add: add_octave_loop.simps [of ps i])
  next
    case True
    then have d: "drop i ps = ps ! i # drop (Suc i) ps"
      by (simp add: Cons_nth_drop_Suc)
    show ?thesis
    proof (cases "representable (ps ! i + 12)")
      case False
      then show ?thesis using True
        by (simp add: add_octave_loop.simps [of ps i] int_add_def checked_def d)
    next
      case r: True
      then have a: "int_add (ps ! i) 12 = Some (ps ! i + 12)"
        by (simp add: int_add_def checked_def)
      have "add_octave_loop ps i = add_octave_loop (ps[i := ps ! i + 12]) (Suc i)"
        using True a by (simp add: add_octave_loop.simps [of ps i])
      also have "\<dots> = (if \<forall>p \<in> set (drop (Suc i) ps). representable (p + 12)
          then Some (take i ps @ [ps ! i + 12] @ map (\<lambda>p. p + 12) (drop (Suc i) ps))
          else None)"
        using "1.IH" [OF True a] True by (simp add: take_Suc_conv_app_nth)
      finally show ?thesis using r by (simp add: d)
    qed
  qed
qed

lemma drop_octave_loop_eq:
  "drop_octave_loop ps i =
     (if \<forall>p \<in> set (drop i ps). representable (p - 12)
      then Some (take i ps @ map (\<lambda>p. p - 12) (drop i ps)) else None)"
proof (induction ps i rule: drop_octave_loop.induct)
  case (1 ps i)
  show ?case
  proof (cases "i < length ps")
    case False
    then show ?thesis by (simp add: drop_octave_loop.simps [of ps i])
  next
    case True
    then have d: "drop i ps = ps ! i # drop (Suc i) ps"
      by (simp add: Cons_nth_drop_Suc)
    show ?thesis
    proof (cases "representable (ps ! i - 12)")
      case False
      then show ?thesis using True
        by (simp add: drop_octave_loop.simps [of ps i] int_sub_def checked_def d)
    next
      case r: True
      then have a: "int_sub (ps ! i) 12 = Some (ps ! i - 12)"
        by (simp add: int_sub_def checked_def)
      have "drop_octave_loop ps i = drop_octave_loop (ps[i := ps ! i - 12]) (Suc i)"
        using True a by (simp add: drop_octave_loop.simps [of ps i])
      also have "\<dots> = (if \<forall>p \<in> set (drop (Suc i) ps). representable (p - 12)
          then Some (take i ps @ [ps ! i - 12] @ map (\<lambda>p. p - 12) (drop (Suc i) ps))
          else None)"
        using "1.IH" [OF True a] True by (simp add: take_Suc_conv_app_nth)
      finally show ?thesis using r by (simp add: d)
    qed
  qed
qed

text \<open>The loop of \<open>equals\<close> runs to its end exactly when no position from \<open>i\<close> on differs.\<close>

lemma equals_loop_iff:
  "equals_loop ps qs i \<longleftrightarrow> (\<forall>j. i \<le> j \<and> j < length ps \<longrightarrow> ps ! j = qs ! j)"
proof (induction ps qs i rule: equals_loop.induct)
  case (1 ps qs i)
  show ?case
  proof (cases "i < length ps")
    case False
    then show ?thesis by (simp add: equals_loop.simps [of ps qs i])
  next
    case True
    show ?thesis
    proof (cases "ps ! i = qs ! i")
      case False
      then show ?thesis using True
        by (auto simp: equals_loop.simps [of ps qs i])
    next
      case e: True
      have "equals_loop ps qs i = equals_loop ps qs (Suc i)"
        using True e by (simp add: equals_loop.simps [of ps qs i])
      also have "\<dots> \<longleftrightarrow> (\<forall>j. Suc i \<le> j \<and> j < length ps \<longrightarrow> ps ! j = qs ! j)"
        using "1.IH" [OF True] e by simp
      also have "\<dots> \<longleftrightarrow> (\<forall>j. i \<le> j \<and> j < length ps \<longrightarrow> ps ! j = qs ! j)"
        using e by (metis Suc_leI le_neq_implies_less Suc_leD)
      finally show ?thesis .
    qed
  qed
qed

section \<open>What the pitch operations compute\<close>

text \<open>
  The guard of \<open>add_octave\<close> reads the pitch at the last position and the guard of
  \<open>drop_octave\<close> the pitch at the first position; no other pitch is compared with a
  bound.
\<close>

lemma add_octave_eq:
  "add_octave c =
     (if pitches c = [] then Some (False, c)
      else if \<not> representable (last (pitches c) + 12) then None
      else if last (pitches c) + 12 > 126 then Some (False, c)
      else if \<forall>p \<in> set (pitches c). representable (p + 12)
        then Some (True, c\<lparr>pitches := map (\<lambda>p. p + 12) (pitches c)\<rparr>)
      else None)"
  by (simp add: add_octave_def int_add_def checked_def add_octave_loop_eq last_conv_nth)

lemma drop_octave_eq:
  "drop_octave c =
     (if pitches c = [] then Some (False, c)
      else if \<not> representable (hd (pitches c) - 12) then None
      else if hd (pitches c) - 12 < 0 then Some (False, c)
      else if \<forall>p \<in> set (pitches c). representable (p - 12)
        then Some (True, c\<lparr>pitches := map (\<lambda>p. p - 12) (pitches c)\<rparr>)
      else None)"
  by (simp add: drop_octave_def int_sub_def checked_def drop_octave_loop_eq hd_conv_nth)

lemma invert_eq:
  "invert c =
     (if length (pitches c) < 2 then Some (False, c)
      else if \<not> representable (hd (pitches c) + 12) then None
      else if hd (pitches c) + 12 > 126 then Some (False, c)
      else Some (True, c\<lparr>pitches := tl (pitches c) @ [hd (pitches c) + 12]\<rparr>))"
  by (cases "pitches c") (simp_all add: invert_def int_add_def checked_def)

text \<open>\<open>equals\<close> decides equality of the two records.\<close>

lemma equals_iff_eq: "equals a b \<longleftrightarrow> a = b"
  by (cases a, cases b) (auto simp: equals_def equals_loop_iff list_eq_iff_nth_eq)

subsection \<open>Where the pitch range is kept\<close>

text \<open>
  The duration modifiers do not touch the pitches, \<open>invert\<close> keeps them within
  \<open>[0, 126]\<close>, and so do the octave shifts on a chord whose pitches ascend.
\<close>

lemma dot_keeps_pitches: "dot K c = Some (r, c') \<Longrightarrow> pitches c' = pitches c"
  by (auto simp: dot_def split: if_splits bind_splits)

lemma double_dot_keeps_pitches: "double_dot K c = Some (r, c') \<Longrightarrow> pitches c' = pitches c"
  by (auto simp: double_dot_def split: if_splits bind_splits)

lemma put_in_triplet_keeps_pitches:
  "put_in_triplet c = Some (r, c') \<Longrightarrow> pitches c' = pitches c"
  by (auto simp: put_in_triplet_def split: if_splits bind_splits)

lemma invert_keeps_range:
  assumes "pitches_in_range c" and "invert c = Some (r, c')"
  shows "pitches_in_range c'"
proof (cases "pitches c")
  case Nil
  then show ?thesis using assms by (simp add: invert_eq)
next
  case (Cons p ps)
  then show ?thesis using assms
    by (auto simp: invert_eq pitches_in_range_def pitch_in_range_def split: if_splits)
qed

lemma sorted_le_last: "sorted xs \<Longrightarrow> x \<in> set xs \<Longrightarrow> x \<le> last xs" for x :: int
  by (induction xs) auto

lemma add_octave_sorted_keeps_range:
  assumes "sorted (pitches c)" and "pitches_in_range c" and "add_octave c = Some (r, c')"
  shows "pitches_in_range c'"
proof (cases "pitches c = []")
  case True
  then show ?thesis using assms by (simp add: add_octave_eq)
next
  case False
  have le: "p \<le> last (pitches c)" if "p \<in> set (pitches c)" for p
    using assms(1) that by (rule sorted_le_last)
  show ?thesis
  proof (cases r)
    case False
    then show ?thesis using assms by (auto simp: add_octave_eq split: if_splits)
  next
    case True
    then have "last (pitches c) + 12 \<le> 126"
      and "pitches c' = map (\<lambda>p. p + 12) (pitches c)"
      using assms(3) \<open>pitches c \<noteq> []\<close> by (auto simp: add_octave_eq split: if_splits)
    then show ?thesis using assms(2) le
      by (fastforce simp: pitches_in_range_def pitch_in_range_def list_all_iff)
  qed
qed

lemma drop_octave_sorted_keeps_range:
  assumes "sorted (pitches c)" and "pitches_in_range c" and "drop_octave c = Some (r, c')"
  shows "pitches_in_range c'"
proof (cases "pitches c")
  case Nil
  then show ?thesis using assms by (simp add: drop_octave_eq)
next
  case (Cons q qs)
  then have le: "q \<le> p" if "p \<in> set (pitches c)" for p
    using that assms(1) by auto
  show ?thesis
  proof (cases r)
    case False
    then show ?thesis using assms by (auto simp: drop_octave_eq split: if_splits)
  next
    case True
    then have "0 \<le> q - 12" and "pitches c' = map (\<lambda>p. p - 12) (pitches c)"
      using assms(3) Cons by (auto simp: drop_octave_eq split: if_splits)
    then show ?thesis using assms(2) le
      by (fastforce simp: pitches_in_range_def pitch_in_range_def list_all_iff)
  qed
qed

section \<open>Pitch range\<close>

text \<open>
  C1. A mutating operation applied to a chord whose pitches all lie in \<open>[0, 126]\<close>
  should leave them there, refusing the call otherwise. The code does not: \<open>invert\<close>
  turns the ascending chord \<open>[100, 120]\<close> into \<open>[120, 112]\<close>, whose pitches are in
  range; on it \<open>add_octave\<close> compares only the last pitch (\<open>112 + 12 \<le> 126\<close>), returns
  true and stores \<open>[132, 124]\<close>. In the same way \<open>drop_octave\<close> on \<open>[18, 0]\<close>
  compares only the first pitch (\<open>18 - 12 \<ge> 0\<close>), returns true and stores
  \<open>[6, -12]\<close>.
\<close>

theorem octave_shift_escapes_pitch_range:
  "invert (Chord_fields [100, 120] 32 0 0 0 0 0 0 0 0 0) =
     Some (True, Chord_fields [120, 112] 32 0 0 0 0 0 0 0 0 0) \<and>
   pitches_in_range (Chord_fields [120, 112] 32 0 0 0 0 0 0 0 0 0) \<and>
   add_octave (Chord_fields [120, 112] 32 0 0 0 0 0 0 0 0 0) =
     Some (True, Chord_fields [132, 124] 32 0 0 0 0 0 0 0 0 0) \<and>
   \<not> pitches_in_range (Chord_fields [132, 124] 32 0 0 0 0 0 0 0 0 0) \<and>
   pitches_in_range (Chord_fields [18, 0] 32 0 0 0 0 0 0 0 0 0) \<and>
   drop_octave (Chord_fields [18, 0] 32 0 0 0 0 0 0 0 0 0) =
     Some (True, Chord_fields [6, - 12] 32 0 0 0 0 0 0 0 0 0) \<and>
   \<not> pitches_in_range (Chord_fields [6, - 12] 32 0 0 0 0 0 0 0 0 0)"
  by (simp add: invert_eq add_octave_eq drop_octave_eq eval_defs)

section \<open>Octave shifts\<close>

text \<open>
  C2. \<open>add_octave\<close> should return false exactly when there is no pitch or the highest
  pitch value plus 12 exceeds 126, and \<open>drop_octave\<close> exactly when there is no pitch
  or the lowest pitch value minus 12 is negative, whatever the order of the pitches.
  The code does not: on \<open>[126, 100]\<close> the highest value is 126 and \<open>add_octave\<close>
  returns true, storing \<open>[138, 112]\<close>; on \<open>[12, 0]\<close> the lowest value is 0 and
  \<open>drop_octave\<close> returns true, storing \<open>[0, -12]\<close>.
\<close>

theorem octave_guard_misses_extreme_pitch:
  "add_octave (Chord_fields [126, 100] 32 0 0 0 0 0 0 0 0 0) =
     Some (True, Chord_fields [138, 112] 32 0 0 0 0 0 0 0 0 0) \<and>
   Max (set (pitches (Chord_fields [126, 100] 32 0 0 0 0 0 0 0 0 0))) + 12 > 126 \<and>
   drop_octave (Chord_fields [12, 0] 32 0 0 0 0 0 0 0 0 0) =
     Some (True, Chord_fields [0, - 12] 32 0 0 0 0 0 0 0 0 0) \<and>
   Min (set (pitches (Chord_fields [12, 0] 32 0 0 0 0 0 0 0 0 0))) - 12 < 0"
  by (simp add: add_octave_eq drop_octave_eq eval_defs)

section \<open>Dotting\<close>

text \<open>
  C3. \<open>dot\<close> has three branches. With neither dot flag set: at the
  one-hundred-twenty-eighth-note constant it returns false and changes nothing,
  otherwise it sets \<open>dotted\<close>, multiplies the duration by 1.5 and returns true. With
  \<open>dotted\<close> set and \<open>double_dotted\<close> clear: at the dotted-sixty-fourth-note constant
  it returns false and changes nothing, otherwise it sets \<open>double_dotted\<close>, divides
  the duration by 6, multiplies it by 7 and returns true. With both flags set it
  returns false and changes nothing. The product by 1.5 is that of the assignment
  \<open>duration *= 1.5\<close> to an \<open>int\<close>, \<open>3 * d / 2\<close> truncated toward zero, and the division
  is the truncating division of \<open>int\<close>; the successful branches are stated for the
  calls whose arithmetic does not overflow.
\<close>

theorem dot_three_branches:
  "(\<not> dotted c \<and> \<not> double_dotted c \<longrightarrow>
      (if duration c = one_twenty_eighth_note K then dot K c = Some (False, c)
       else representable ((3 * duration c) sdiv 2) \<longrightarrow>
         dot K c = Some (True, c\<lparr>dotted := True, duration := (3 * duration c) sdiv 2\<rparr>))) \<and>
   (dotted c \<and> \<not> double_dotted c \<longrightarrow>
      (if duration c = dotted_sixty_fourth_note K then dot K c = Some (False, c)
       else representable (duration c sdiv 6 * 7) \<longrightarrow>
         dot K c = Some (True, c\<lparr>double_dotted := True, duration := duration c sdiv 6 * 7\<rparr>))) \<and>
   (dotted c \<and> double_dotted c \<longrightarrow> dot K c = Some (False, c))"
  by (simp add: dot_def int_mul_1_5_def checked_def div_then_mul)

theorem dot_three_branches_witness:
  "dot tick_table (Chord_fields [60, 64, 67] 1 0 0 0 0 0 0 0 0 0) =
     Some (False, Chord_fields [60, 64, 67] 1 0 0 0 0 0 0 0 0 0) \<and>
   dot tick_table (Chord_fields [60, 64, 67] 32 0 0 0 0 0 0 0 0 0) =
     Some (True, Chord_fields [60, 64, 67] 48 0 1 0 0 0 0 0 0 0) \<and>
   dot tick_table (Chord_fields [60, 64, 67] 3 0 1 0 0 0 0 0 0 0) =
     Some (False, Chord_fields [60, 64, 67] 3 0 1 0 0 0 0 0 0 0) \<and>
   dot tick_table (Chord_fields [60, 64, 67] 48 0 1 0 0 0 0 0 0 0) =
     Some (True, Chord_fields [60, 64, 67] 56 0 1 1 0 0 0 0 0 0) \<and>
   dot tick_table (Chord_fields [60, 64, 67] 56 0 1 1 0 0 0 0 0 0) =
     Some (False, Chord_fields [60, 64, 67] 56 0 1 1 0 0 0 0 0 0)"
  using dot_three_branches [of "Chord_fields [60, 64, 67] 1 0 0 0 0 0 0 0 0 0" tick_table]
    dot_three_branches [of "Chord_fields [60, 64, 67] 32 0 0 0 0 0 0 0 0 0" tick_table]
    dot_three_branches [of "Chord_fields [60, 64, 67] 3 0 1 0 0 0 0 0 0 0" tick_table]
    dot_three_branches [of "Chord_fields [60, 64, 67] 48 0 1 0 0 0 0 0 0 0" tick_table]
    dot_three_branches [of "Chord_fields [60, 64, 67] 56 0 1 1 0 0 0 0 0 0" tick_table]
  by (simp add: eval_defs)

text \<open>
  C10 as stated fails for a negative odd duration: \<open>-5\<close> becomes \<open>-7\<close>, and the floor
  of \<open>3 * (-5) / 2\<close> is \<open>-8\<close>.
\<close>

theorem dot_negative_odd_is_not_floor:
  "odd (- 5 :: int) \<and> - 5 \<noteq> one_twenty_eighth_note tick_table \<and>
   dot tick_table (Chord_fields [60, 64, 67] (- 5) 0 0 0 0 0 0 0 0 0) =
     Some (True, Chord_fields [60, 64, 67] (- 7) 0 1 0 0 0 0 0 0 0) \<and>
   (3 * (- 5)) div 2 = (- 8 :: int)"
  by (simp add: dot_def eval_defs)

text \<open>
  C10, amended. On a chord with both dot flags clear, an odd duration \<open>d\<close> other than
  the one-hundred-twenty-eighth-note constant, and a representable result, \<open>dot\<close>
  sets the duration to \<open>3 * d / 2\<close> truncated toward zero: the floor of \<open>3 * d / 2\<close>
  for positive \<open>d\<close>, one more than the floor for negative \<open>d\<close>. In both cases the new
  duration is not an exact 3/2 multiple of \<open>d\<close>.
\<close>

theorem dot_truncates_toward_zero:
  assumes "\<not> dotted c" and "\<not> double_dotted c"
    and "duration c \<noteq> one_twenty_eighth_note K"
    and "odd (duration c)"
    and "representable ((3 * duration c) sdiv 2)"
  shows "dot K c = Some (True, c\<lparr>dotted := True, duration := (3 * duration c) sdiv 2\<rparr>) \<and>
    (3 * duration c) sdiv 2 =
      (if 0 < duration c then (3 * duration c) div 2 else (3 * duration c) div 2 + 1) \<and>
    2 * ((3 * duration c) sdiv 2) \<noteq> 3 * duration c"
proof -
  have "dot K c = Some (True, c\<lparr>dotted := True, duration := (3 * duration c) sdiv 2\<rparr>)"
    using assms by (simp add: dot_def int_mul_1_5_def checked_def)
  moreover have "(3 * duration c) sdiv 2 =
      (if 0 < duration c then (3 * duration c) div 2 else (3 * duration c) div 2 + 1)"
    using assms(4) by (cases "duration c = 0") (auto simp: mul_1_5_cases)
  moreover have "2 * ((3 * duration c) sdiv 2) \<noteq> 3 * duration c"
  proof
    assume "2 * ((3 * duration c) sdiv 2) = 3 * duration c"
    then have "2 dvd 3 * duration c" by (metis dvd_triv_left)
    then show False using assms(4) by simp
  qed
  ultimately show ?thesis by blast
qed

theorem dot_truncates_toward_zero_witness:
  "odd (5 :: int) \<and> 5 \<noteq> one_twenty_eighth_note tick_table \<and>
   dot tick_table (Chord_fields [60, 64, 67] 5 0 0 0 0 0 0 0 0 0) =
     Some (True, Chord_fields [60, 64, 67] 7 0 1 0 0 0 0 0 0 0) \<and>
   (3 * 5) div 2 = (7 :: int)"
  using dot_truncates_toward_zero [of "Chord_fields [60, 64, 67] 5 0 0 0 0 0 0 0 0 0" tick_table]
  by (simp add: eval_defs)

text \<open>
  C5 as stated fails where the duration is not a multiple of 4: from 6, two dots give
  9 and then 7, and 7 is not 7/4 of 6.
\<close>

theorem dot_twice_is_not_seven_quarters:
  "dot tick_table (Chord_fields [60, 64, 67] 6 0 0 0 0 0 0 0 0 0) =
     Some (True, Chord_fields [60, 64, 67] 9 0 1 0 0 0 0 0 0 0) \<and>
   dot tick_table (Chord_fields [60, 64, 67] 9 0 1 0 0 0 0 0 0 0) =
     Some (True, Chord_fields [60, 64, 67] 7 0 1 1 0 0 0 0 0 0) \<and>
   double_dot tick_table (Chord_fields [60, 64, 67] 6 0 0 0 0 0 0 0 0 0) =
     Some (True, Chord_fields [60, 64, 67] 7 0 1 1 0 0 0 0 0 0) \<and>
   4 * duration (Chord_fields [60, 64, 67] 7 0 1 1 0 0 0 0 0 0) \<noteq>
     7 * duration (Chord_fields [60, 64, 67] 6 0 0 0 0 0 0 0 0 0)"
  by (simp add: dot_def double_dot_def eval_defs)

text \<open>
  C5, amended. On a chord with both dot flags clear on which neither operation stops
  at a boundary constant (the duration is neither the one-hundred-twenty-eighth-note
  nor the sixty-fourth-note constant, and the dotted duration is not the
  dotted-sixty-fourth-note constant) and \<open>double_dot\<close> does not overflow, two calls of
  \<open>dot\<close> both return true and end in the chord that one call of \<open>double_dot\<close>
  produces: both dot flags set and the duration divided by 4 (truncating) and
  multiplied by 7. That duration is 7/4 of the original exactly when the original is
  a multiple of 4.
\<close>

theorem dot_twice_equals_double_dot:
  assumes "\<not> dotted c" and "\<not> double_dotted c"
    and "duration c \<noteq> one_twenty_eighth_note K"
    and "duration c \<noteq> sixty_fourth_note K"
    and "(3 * duration c) sdiv 2 \<noteq> dotted_sixty_fourth_note K"
    and "representable (duration c sdiv 4 * 7)"
  shows "dot K c = Some (True, c\<lparr>dotted := True, duration := (3 * duration c) sdiv 2\<rparr>) \<and>
    dot K (c\<lparr>dotted := True, duration := (3 * duration c) sdiv 2\<rparr>) =
      Some (True, c\<lparr>dotted := True, double_dotted := True, duration := duration c sdiv 4 * 7\<rparr>) \<and>
    double_dot K c =
      Some (True, c\<lparr>dotted := True, double_dotted := True, duration := duration c sdiv 4 * 7\<rparr>) \<and>
    (4 * (duration c sdiv 4 * 7) = 7 * duration c \<longleftrightarrow> 4 dvd duration c)"
proof -
  have r7: "representable (7 * (duration c sdiv 4))"
    using assms(6) by (simp add: mult.commute)
  have r: "representable ((3 * duration c) sdiv 2)"
    using r7 by (rule representable_dot_of_double_dot)
  have "dot K c = Some (True, c\<lparr>dotted := True, duration := (3 * duration c) sdiv 2\<rparr>)"
    using assms r by (simp add: dot_def int_mul_1_5_def checked_def)
  moreover have "dot K (c\<lparr>dotted := True, duration := (3 * duration c) sdiv 2\<rparr>) =
      Some (True, c\<lparr>dotted := True, double_dotted := True, duration := duration c sdiv 4 * 7\<rparr>)"
    using assms by (simp add: dot_def div_then_mul dot_twice_quotient)
  moreover have "double_dot K c =
      Some (True, c\<lparr>dotted := True, double_dotted := True, duration := duration c sdiv 4 * 7\<rparr>)"
    using assms by (simp add: double_dot_def div_then_mul)
  moreover have "4 * (duration c sdiv 4 * 7) = 7 * duration c \<longleftrightarrow> 4 dvd duration c"
    using sdiv_exact_iff [of 4 "duration c"] by auto
  ultimately show ?thesis by blast
qed

theorem dot_twice_equals_double_dot_witness:
  "dot tick_table (Chord_fields [60, 64, 67] 32 0 0 0 0 0 0 0 0 0) =
     Some (True, Chord_fields [60, 64, 67] 48 0 1 0 0 0 0 0 0 0) \<and>
   dot tick_table (Chord_fields [60, 64, 67] 48 0 1 0 0 0 0 0 0 0) =
     Some (True, Chord_fields [60, 64, 67] 56 0 1 1 0 0 0 0 0 0) \<and>
   double_dot tick_table (Chord_fields [60, 64, 67] 32 0 0 0 0 0 0 0 0 0) =
     Some (True, Chord_fields [60, 64, 67] 56 0 1 1 0 0 0 0 0 0) \<and>
   4 * (56 :: int) = 7 * 32 \<and> (4 :: int) dvd 32"
  using dot_twice_equals_double_dot [of "Chord_fields [60, 64, 67] 32 0 0 0 0 0 0 0 0 0" tick_table]
  by (simp add: eval_defs)

section \<open>Triplets\<close>

text \<open>
  C7 as stated fails where the duration is not a multiple of 3: from 4, the first
  call gives 2 and the second changes nothing, and 2 is not 2/3 of 4.
\<close>

theorem put_in_triplet_twice_inexact:
  "put_in_triplet (Chord_fields [60, 64, 67] 4 0 0 0 0 0 0 0 0 0) =
     Some (True, Chord_fields [60, 64, 67] 2 1 0 0 0 0 0 0 0 0) \<and>
   put_in_triplet (Chord_fields [60, 64, 67] 2 1 0 0 0 0 0 0 0 0) =
     Some (False, Chord_fields [60, 64, 67] 2 1 0 0 0 0 0 0 0 0) \<and>
   3 * duration (Chord_fields [60, 64, 67] 2 1 0 0 0 0 0 0 0 0) \<noteq>
     2 * duration (Chord_fields [60, 64, 67] 4 0 0 0 0 0 0 0 0 0)"
  by (simp add: put_in_triplet_def eval_defs)

text \<open>
  C7, amended. On a chord with \<open>triplet\<close> false, the first call of \<open>put_in_triplet\<close>
  returns true, sets the flag and replaces the duration by the original divided by 3
  (truncating) and multiplied by 2; the second call returns false and changes
  nothing, so the compression is applied once. The resulting duration is 2/3 of the
  original exactly when the original is a multiple of 3.
\<close>

theorem put_in_triplet_once_only:
  assumes "\<not> triplet c" and "representable (duration c)"
  shows "put_in_triplet c =
      Some (True, c\<lparr>triplet := True, duration := duration c sdiv 3 * 2\<rparr>) \<and>
    put_in_triplet (c\<lparr>triplet := True, duration := duration c sdiv 3 * 2\<rparr>) =
      Some (False, c\<lparr>triplet := True, duration := duration c sdiv 3 * 2\<rparr>) \<and>
    (3 * (duration c sdiv 3 * 2) = 2 * duration c \<longleftrightarrow> 3 dvd duration c)"
proof -
  have "put_in_triplet c =
      Some (True, c\<lparr>triplet := True, duration := duration c sdiv 3 * 2\<rparr>)"
    using assms representable_triplet [OF assms(2)]
    by (simp add: put_in_triplet_def int_div_def int_mul_def checked_def)
  moreover have "put_in_triplet (c\<lparr>triplet := True, duration := duration c sdiv 3 * 2\<rparr>) =
      Some (False, c\<lparr>triplet := True, duration := duration c sdiv 3 * 2\<rparr>)"
    by (simp add: put_in_triplet_def)
  moreover have "3 * (duration c sdiv 3 * 2) = 2 * duration c \<longleftrightarrow> 3 dvd duration c"
    using sdiv_exact_iff [of 3 "duration c"] by auto
  ultimately show ?thesis by blast
qed

theorem put_in_triplet_once_only_witness:
  "put_in_triplet (Chord_fields [60, 64, 67] 96 0 0 0 0 0 0 0 0 0) =
     Some (True, Chord_fields [60, 64, 67] 64 1 0 0 0 0 0 0 0 0) \<and>
   put_in_triplet (Chord_fields [60, 64, 67] 64 1 0 0 0 0 0 0 0 0) =
     Some (False, Chord_fields [60, 64, 67] 64 1 0 0 0 0 0 0 0 0) \<and>
   3 * (64 :: int) = 2 * 96 \<and> (3 :: int) dvd 96"
  using put_in_triplet_once_only [of "Chord_fields [60, 64, 67] 96 0 0 0 0 0 0 0 0 0"]
  by (simp add: eval_defs)

section \<open>Failure changes nothing\<close>

text \<open>
  C4. Whenever \<open>dot\<close>, \<open>double_dot\<close>, \<open>put_in_triplet\<close>, \<open>add_octave\<close>, \<open>drop_octave\<close>
  or \<open>invert\<close> returns false, the chord after the call is the chord before it, in
  every field.
\<close>

theorem failure_leaves_chord_unchanged:
  "(dot K c = Some (False, c') \<longrightarrow> c' = c) \<and>
   (double_dot K c = Some (False, c') \<longrightarrow> c' = c) \<and>
   (put_in_triplet c = Some (False, c') \<longrightarrow> c' = c) \<and>
   (add_octave c = Some (False, c') \<longrightarrow> c' = c) \<and>
   (drop_octave c = Some (False, c') \<longrightarrow> c' = c) \<and>
   (invert c = Some (False, c') \<longrightarrow> c' = c)"
proof -
  have "dot K c = Some (False, c') \<longrightarrow> c' = c"
    by (auto simp: dot_def split: if_splits bind_splits)
  moreover have "double_dot K c = Some (False, c') \<longrightarrow> c' = c"
    by (auto simp: double_dot_def split: if_splits bind_splits)
  moreover have "put_in_triplet c = Some (False, c') \<longrightarrow> c' = c"
    by (auto simp: put_in_triplet_def split: if_splits bind_splits)
  moreover have "add_octave c = Some (False, c') \<longrightarrow> c' = c"
    by (auto simp: add_octave_eq split: if_splits)
  moreover have "drop_octave c = Some (False, c') \<longrightarrow> c' = c"
    by (auto simp: drop_octave_eq split: if_splits)
  moreover have "invert c = Some (False, c') \<longrightarrow> c' = c"
    by (auto simp: invert_eq split: if_splits)
  ultimately show ?thesis by blast
qed

theorem failure_leaves_chord_unchanged_witness:
  "dot tick_table (Chord_fields [] 32 1 1 1 0 0 0 0 0 0) =
     Some (False, Chord_fields [] 32 1 1 1 0 0 0 0 0 0) \<and>
   double_dot tick_table (Chord_fields [] 32 1 1 1 0 0 0 0 0 0) =
     Some (False, Chord_fields [] 32 1 1 1 0 0 0 0 0 0) \<and>
   put_in_triplet (Chord_fields [] 32 1 1 1 0 0 0 0 0 0) =
     Some (False, Chord_fields [] 32 1 1 1 0 0 0 0 0 0) \<and>
   add_octave (Chord_fields [] 32 1 1 1 0 0 0 0 0 0) =
     Some (False, Chord_fields [] 32 1 1 1 0 0 0 0 0 0) \<and>
   drop_octave (Chord_fields [] 32 1 1 1 0 0 0 0 0 0) =
     Some (False, Chord_fields [] 32 1 1 1 0 0 0 0 0 0) \<and>
   invert (Chord_fields [] 32 1 1 1 0 0 0 0 0 0) =
     Some (False, Chord_fields [] 32 1 1 1 0 0 0 0 0 0)"
  using failure_leaves_chord_unchanged [of tick_table "Chord_fields [] 32 1 1 1 0 0 0 0 0 0"
      "Chord_fields [] 32 1 1 1 0 0 0 0 0 0"]
  by (simp add: dot_def double_dot_def put_in_triplet_def add_octave_eq drop_octave_eq
      invert_eq eval_defs)

section \<open>Inversion\<close>

text \<open>
  C6. \<open>invert\<close> returns false, changing nothing, exactly when there are fewer than
  two pitches or the pitch at index 0 (the lowest pitch by position) plus 12 exceeds
  126; otherwise it returns true, having removed the pitch at index 0 and appended
  that pitch plus 12 at the end, with the pitches in between in their order. On
  \<open>[60, 64, 67]\<close> it yields \<open>[64, 67, 72]\<close>. The two cases with at least two pitches
  are stated for a sum that does not overflow.
\<close>

theorem invert_moves_first_pitch_up:
  "(length (pitches c) < 2 \<longrightarrow> invert c = Some (False, c)) \<and>
   (2 \<le> length (pitches c) \<and> pitches c ! 0 + 12 > 126 \<and>
    representable (pitches c ! 0 + 12) \<longrightarrow>
      invert c = Some (False, c)) \<and>
   (2 \<le> length (pitches c) \<and> pitches c ! 0 + 12 \<le> 126 \<and>
    representable (pitches c ! 0 + 12) \<longrightarrow>
      invert c = Some (True, c\<lparr>pitches := tl (pitches c) @ [pitches c ! 0 + 12]\<rparr>)) \<and>
   (pitches c = [60, 64, 67] \<longrightarrow> invert c = Some (True, c\<lparr>pitches := [64, 67, 72]\<rparr>))"
  by (cases "pitches c") (auto simp: invert_eq representable_def INT_MIN_def INT_MAX_def)

theorem invert_moves_first_pitch_up_witness:
  "invert (Chord_fields [60] 32 0 0 0 0 0 0 0 0 0) =
     Some (False, Chord_fields [60] 32 0 0 0 0 0 0 0 0 0) \<and>
   invert (Chord_fields [120, 125] 32 0 0 0 0 0 0 0 0 0) =
     Some (False, Chord_fields [120, 125] 32 0 0 0 0 0 0 0 0 0) \<and>
   invert (Chord_fields [67, 64, 60, 70] 32 0 0 0 0 0 0 0 0 0) =
     Some (True, Chord_fields [64, 60, 70, 79] 32 0 0 0 0 0 0 0 0 0) \<and>
   invert (Chord_fields [60, 64, 67] 32 0 0 0 0 0 0 0 0 0) =
     Some (True, Chord_fields [64, 67, 72] 32 0 0 0 0 0 0 0 0 0)"
  using invert_moves_first_pitch_up [of "Chord_fields [60] 32 0 0 0 0 0 0 0 0 0"]
    invert_moves_first_pitch_up [of "Chord_fields [120, 125] 32 0 0 0 0 0 0 0 0 0"]
    invert_moves_first_pitch_up [of "Chord_fields [67, 64, 60, 70] 32 0 0 0 0 0 0 0 0 0"]
    invert_moves_first_pitch_up [of "Chord_fields [60, 64, 67] 32 0 0 0 0 0 0 0 0 0"]
  by (simp add: eval_defs)

section \<open>Equality\<close>

text \<open>
  C8. \<open>equals\<close> returns true if and only if the two pitch sequences have the same
  length and the same value at every position, and the duration and each of the nine
  flags agree. It is reflexive, symmetric and transitive. It changes neither chord:
  the source function assigns to nothing, and the model is a function to \<open>bool\<close>.
\<close>

theorem equals_structural:
  "(equals a b \<longleftrightarrow>
      length (pitches a) = length (pitches b) \<and>
      (\<forall>i < length (pitches a). pitches a ! i = pitches b ! i) \<and>
      duration a = duration b \<and> triplet a = triplet b \<and> dotted a = dotted b \<and>
      double_dotted a = double_dotted b \<and> staccato a = staccato b \<and>
      tenuto a = tenuto b \<and> accent a = accent b \<and> fermata a = fermata b \<and>
      tied a = tied b \<and> slurred a = slurred b) \<and>
   equals a a \<and>
   (equals a b \<longrightarrow> equals b a) \<and>
   (equals a b \<and> equals b c \<longrightarrow> equals a c)"
proof -
  have f: "equals a b \<longleftrightarrow>
      length (pitches a) = length (pitches b) \<and>
      (\<forall>i < length (pitches a). pitches a ! i = pitches b ! i) \<and>
      duration a = duration b \<and> triplet a = triplet b \<and> dotted a = dotted b \<and>
      double_dotted a = double_dotted b \<and> staccato a = staccato b \<and>
      tenuto a = tenuto b \<and> accent a = accent b \<and> fermata a = fermata b \<and>
      tied a = tied b \<and> slurred a = slurred b"
    by (auto simp: equals_def equals_loop_iff)
  have r: "equals a a"
    by (simp add: equals_iff_eq)
  have s: "equals a b \<longrightarrow> equals b a"
    by (simp add: equals_iff_eq)
  have t: "equals a b \<and> equals b c \<longrightarrow> equals a c"
    by (simp add: equals_iff_eq)
  from f r s t show ?thesis
    by (intro conjI)
qed

theorem equals_structural_witness:
  "equals (Chord_fields [60, 64, 67] 32 0 0 0 0 0 0 0 1 0)
     (Chord_fields [60, 64, 67] 32 0 0 0 0 0 0 0 1 0) \<and>
   \<not> equals (Chord_fields [60, 64, 67] 32 0 0 0 0 0 0 0 1 0)
     (Chord_fields [60, 64, 67] 32 0 0 0 0 0 0 0 0 0) \<and>
   \<not> equals (Chord_fields [60, 64, 67] 32 0 0 0 0 0 0 0 1 0)
     (Chord_fields [64, 60, 67] 32 0 0 0 0 0 0 0 1 0)"
  using equals_structural [of "Chord_fields [60, 64, 67] 32 0 0 0 0 0 0 0 1 0"
      "Chord_fields [60, 64, 67] 32 0 0 0 0 0 0 0 1 0"
      "Chord_fields [60, 64, 67] 32 0 0 0 0 0 0 0 1 0"]
    equals_structural [of "Chord_fields [60, 64, 67] 32 0 0 0 0 0 0 0 1 0"
      "Chord_fields [60, 64, 67] 32 0 0 0 0 0 0 0 0 0"
      "Chord_fields [60, 64, 67] 32 0 0 0 0 0 0 0 1 0"]
    equals_structural [of "Chord_fields [60, 64, 67] 32 0 0 0 0 0 0 0 1 0"
      "Chord_fields [64, 60, 67] 32 0 0 0 0 0 0 0 1 0"
      "Chord_fields [60, 64, 67] 32 0 0 0 0 0 0 0 1 0"]
  by (simp add: Chord_fields_def equals_iff_eq)

section \<open>Construction\<close>

text \<open>
  C9. The constructor with parameters validates nothing: it stores the pitches and
  the duration as given and each flag as the truth value of its \<open>int\<close> argument. So a
  chord can be constructed with a pitch outside \<open>[0, 126]\<close>, with a duration that is
  not positive, and with \<open>double_dotted\<close> set while \<open>dotted\<close> is clear.
\<close>

theorem constructor_stores_arguments:
  "pitches (Chord_fields ps d tr dt dd st te ac fe ti sl) = ps \<and>
   duration (Chord_fields ps d tr dt dd st te ac fe ti sl) = d \<and>
   triplet (Chord_fields ps d tr dt dd st te ac fe ti sl) = (tr \<noteq> 0) \<and>
   dotted (Chord_fields ps d tr dt dd st te ac fe ti sl) = (dt \<noteq> 0) \<and>
   double_dotted (Chord_fields ps d tr dt dd st te ac fe ti sl) = (dd \<noteq> 0) \<and>
   staccato (Chord_fields ps d tr dt dd st te ac fe ti sl) = (st \<noteq> 0) \<and>
   tenuto (Chord_fields ps d tr dt dd st te ac fe ti sl) = (te \<noteq> 0) \<and>
   accent (Chord_fields ps d tr dt dd st te ac fe ti sl) = (ac \<noteq> 0) \<and>
   fermata (Chord_fields ps d tr dt dd st te ac fe ti sl) = (fe \<noteq> 0) \<and>
   tied (Chord_fields ps d tr dt dd st te ac fe ti sl) = (ti \<noteq> 0) \<and>
   slurred (Chord_fields ps d tr dt dd st te ac fe ti sl) = (sl \<noteq> 0) \<and>
   \<not> pitches_in_range (Chord_fields [127, - 1] 0 0 0 1 0 0 0 0 0 0) \<and>
   duration (Chord_fields [127, - 1] 0 0 0 1 0 0 0 0 0 0) \<le> 0 \<and>
   double_dotted (Chord_fields [127, - 1] 0 0 0 1 0 0 0 0 0 0) \<and>
   \<not> dotted (Chord_fields [127, - 1] 0 0 0 1 0 0 0 0 0 0)"
  by (simp add: Chord_fields_def pitches_in_range_def pitch_in_range_def)

end
